theory Spec2Isabelle
  imports Complex_Main
begin

section \<open>JavaScript primitives used by the component\<close>

text \<open>
  JavaScript numbers are modelled by the mathematical numbers they stand for: list
  positions, keys and relative offsets are integers (\<open>int\<close>), pointer displacements and
  the geometric configuration are reals.  \<open>Math.sign\<close> yields 1, -1 or 0.
\<close>

definition Math_sign :: "'a::linordered_idom \<Rightarrow> int" where
  "Math_sign x = (if 0 < x then 1 else if x < 0 then - 1 else 0)"

text \<open>
  \<open>Array.prototype.slice(start, end)\<close>: a negative argument counts from the end of the
  array, both arguments are cut to the array, and the result is empty when the cut start
  is not before the cut end.
\<close>

definition Array_slice :: "int \<Rightarrow> int \<Rightarrow> 'a list \<Rightarrow> 'a list" where
  "Array_slice start fin xs =
     (let len = int (length xs);
          k = (if start < 0 then max (len + start) 0 else min start len);
          final = (if fin < 0 then max (len + fin) 0 else min fin len)
      in take (nat (final - k)) (drop (nat k) xs))"

section \<open>Data model\<close>

record 'a ItemWithKey =
  item :: 'a
  key :: int

record 'a ItemWithIndex = "'a ItemWithKey" +
  index :: int

text \<open>
  The properties of the \<open>Coverflow\<close> component.  The two optional callbacks are modelled
  by whether the caller supplied them; calling a supplied callback is an observable
  effect (below).  \<open>children\<close> only renders an item and is left out.
\<close>

record 'a CoverflowProps =
  items :: "'a list"
  sideItems :: int
  startPosition :: int
  scale :: real
  scaleRatio :: real
  angle :: real
  gap :: real
  centreGap :: real
  perspective :: real
  depth :: real
  itemClicked :: bool
  sideItemClicked :: bool
  showReflections :: bool
  dragThreshold :: real
  dragSpeed :: real
  clickableSide :: bool

text \<open>The defaults of the destructuring pattern; both callbacks supplied.\<close>

definition defaultProps :: "'a list \<Rightarrow> 'a CoverflowProps" where
  "defaultProps xs =
     \<lparr>items = xs, sideItems = 3, startPosition = 0, scale = 1, scaleRatio = 1,
      angle = 60, gap = 20, centreGap = 40, perspective = 1000, depth = 200,
      itemClicked = True, sideItemClicked = True, showReflections = True,
      dragThreshold = 100, dragSpeed = 0.5, clickableSide = True\<rparr>"

text \<open>
  The mutable state of a mounted component: the \<open>position\<close> state variable and the two
  refs \<open>lastX\<close> and \<open>preventClick\<close>.  Both handlers change the position through an updater
  function (\<open>setPosition(position => ...)\<close>); updaters are applied in the order of the
  calls, each to the result of the one before, so the model applies them at once.
\<close>

record CoverflowState =
  position :: int
  lastX :: real
  preventClick :: bool

text \<open>The part of a gesture state that the drag handler reads.\<close>

record DragSample =
  first :: bool
  active :: bool
  mx :: real

text \<open>
  What a handler does besides changing the state: a call of one of the two callbacks
  with an item's value, a call \<open>dragSpringsApi.start({x, rotateY})\<close>, and a call of
  \<open>setPosition\<close>, recorded with the value the updater function produced.
\<close>

datatype 'a effect =
    ItemClicked 'a
  | SideItemClicked 'a
  | SpringsStart real real
  | SetPosition int

section \<open>Position model\<close>

definition clampPosition :: "'a CoverflowProps \<Rightarrow> int \<Rightarrow> int" where
  "clampPosition props n = max 0 (min n (int (length (items props)) - 1))"

definition initialState :: "'a CoverflowProps \<Rightarrow> CoverflowState" where
  "initialState props =
     \<lparr>position = clampPosition props (startPosition props), lastX = 0, preventClick = False\<rparr>"

section \<open>Windowing\<close>

definition withKeys :: "'a list \<Rightarrow> 'a ItemWithKey list" where
  "withKeys xs = map (\<lambda>(k, x). \<lparr>item = x, key = int k\<rparr>) (enumerate 0 xs)"

definition withIndex :: "int \<Rightarrow> 'a ItemWithKey list \<Rightarrow> 'a ItemWithIndex list" where
  "withIndex offset xs = map (\<lambda>it. \<lparr>item = item it, key = key it, index = key it - offset\<rparr>) xs"

definition visibleItems :: "'a CoverflowProps \<Rightarrow> int \<Rightarrow> 'a ItemWithIndex list" where
  "visibleItems props pos =
     (let start = max (pos - sideItems props) 0;
          fin = min (pos + sideItems props + 1) (int (length (items props)))
      in withIndex pos (Array_slice start fin (withKeys (items props))))"

section \<open>Transform function\<close>

text \<open>
  \<open>getTransform\<close> builds a CSS transform string from five numbers; the model returns the
  numbers.  The scale appears twice in the string, as the x and the y factor.
\<close>

record Transform =
  perspectivePx :: real
  translateXPercent :: real
  translateZPx :: real
  rotateYDeg :: real
  scaleX :: real
  scaleY :: real

definition getTransform :: "'a CoverflowProps \<Rightarrow> int \<Rightarrow> Transform" where
  "getTransform props i =
     (let transX = (if i = 0 then 0
                    else centreGap props * of_int (Math_sign i) + gap props * of_int i);
          rotation = (if i = 0 then 0 else - of_int (Math_sign i) * angle props);
          scaleXY = scale props * (if i = 0 then 1 else scaleRatio props);
          transZ = (if i = 0 then 0 else - depth props)
      in \<lparr>perspectivePx = perspective props, translateXPercent = transX,
          translateZPx = transZ, rotateYDeg = rotation, scaleX = scaleXY, scaleY = scaleXY\<rparr>)"

definition getZIndex :: "int \<Rightarrow> int" where
  "getZIndex i = 100 - \<bar>i\<bar>"

section \<open>Click dispatcher\<close>

definition handleClick ::
  "'a CoverflowProps \<Rightarrow> 'a ItemWithIndex \<Rightarrow> CoverflowState \<Rightarrow> 'a effect list \<times> CoverflowState" where
  "handleClick props it st =
     (if preventClick st then ([], st\<lparr>preventClick := False\<rparr>)
      else if index it = 0 then
        ((if itemClicked props then [ItemClicked (item it)] else []), st)
      else if clickableSide props then
        ((if sideItemClicked props then [SideItemClicked (item it)] else [])
           @ [SetPosition (position st + Math_sign (index it))],
         st\<lparr>position := position st + Math_sign (index it)\<rparr>)
      else
        ((if sideItemClicked props then [SideItemClicked (item it)] else []), st))"

section \<open>Drag state machine\<close>

definition dragHandler ::
  "'a CoverflowProps \<Rightarrow> DragSample \<Rightarrow> CoverflowState \<Rightarrow> 'a effect list \<times> CoverflowState" where
  "dragHandler props s st =
     (let st1 = (if first s then st\<lparr>lastX := 0\<rparr> else st);
          newX = mx s - lastX st1;
          springs = SpringsStart (if active s then newX * dragSpeed props else 0) 0
      in if \<bar>newX\<bar> > dragThreshold props then
           (let p = clampPosition props (position st1 - Math_sign newX)
            in ([springs, SetPosition p],
                st1\<lparr>position := p, lastX := mx s, preventClick := True\<rparr>))
         else ([springs], st1))"

section \<open>The click handler of the earlier component\<close>

text \<open>
  \<open>src/coverflow.tsx\<close> is an earlier version of the component, without dragging, without
  the suppression flag and without \<open>clickableSide\<close>; its only state is the position.  Its
  click handler calls one of the callbacks and adds the relative offset to the position.
\<close>

definition handleClick_coverflow_tsx ::
  "'a CoverflowProps \<Rightarrow> 'a ItemWithIndex \<Rightarrow> int \<Rightarrow> 'a effect list \<times> int" where
  "handleClick_coverflow_tsx props it p =
     ((if index it = 0 then (if itemClicked props then [ItemClicked (item it)] else [])
       else (if sideItemClicked props then [SideItemClicked (item it)] else []))
        @ [SetPosition (p + index it)],
      p + index it)"

section \<open>Event streams\<close>

text \<open>
  The component reacts to one event at a time: a drag sample or a click on one of the
  rendered items.  \<open>run\<close> feeds a stream of events to the handlers in order and
  collects their effects.
\<close>

datatype 'a input = Drag DragSample | Click "'a ItemWithIndex"

fun step ::
  "'a CoverflowProps \<Rightarrow> 'a input \<Rightarrow> CoverflowState \<Rightarrow> 'a effect list \<times> CoverflowState" where
  "step props (Drag s) st = dragHandler props s st"
| "step props (Click it) st = handleClick props it st"

fun run ::
  "'a CoverflowProps \<Rightarrow> 'a input list \<Rightarrow> CoverflowState \<Rightarrow> 'a effect list \<times> CoverflowState" where
  "run props [] st = ([], st)"
| "run props (i # ins) st =
     (case step props i st of (e1, st1) \<Rightarrow>
        (case run props ins st1 of (e2, st2) \<Rightarrow> (e1 @ e2, st2)))"

text \<open>The values passed to \<open>setPosition\<close>, in order.\<close>

fun commits :: "'a effect list \<Rightarrow> int list" where
  "commits [] = []"
| "commits (SetPosition p # es) = p # commits es"
| "commits (e # es) = commits es"

text \<open>The callback calls among the effects.\<close>

fun notifications :: "'a effect list \<Rightarrow> 'a effect list" where
  "notifications [] = []"
| "notifications (ItemClicked x # es) = ItemClicked x # notifications es"
| "notifications (SideItemClicked x # es) = SideItemClicked x # notifications es"
| "notifications (e # es) = notifications es"

text \<open>
  Only rendered items can be clicked: every click of the stream is on an item that is
  visible at the position the component has when the click arrives.
\<close>

fun clicksVisible :: "'a CoverflowProps \<Rightarrow> 'a input list \<Rightarrow> CoverflowState \<Rightarrow> bool" where
  "clicksVisible props [] st = True"
| "clicksVisible props (Drag s # ins) st =
     clicksVisible props ins (snd (dragHandler props s st))"
| "clicksVisible props (Click it # ins) st =
     (it \<in> set (visibleItems props (position st))
      \<and> clicksVisible props ins (snd (handleClick props it st)))"

section \<open>Auxiliary notions of the specification\<close>

text \<open>The sign function as the specification of the transform function writes it.\<close>

definition spec_sign :: "int \<Rightarrow> int" where
  "spec_sign k = (if k = 0 then 0 else if k > 0 then 1 else - 1)"

text \<open>A position is within the list.\<close>

definition inBounds :: "'a CoverflowProps \<Rightarrow> int \<Rightarrow> bool" where
  "inBounds props p = (0 \<le> p \<and> p \<le> int (length (items props)) - 1)"

text \<open>
  A single gesture: its first sample, and only that one, carries \<open>first\<close>.  The gesture
  is a monotonic drag when the displacements never turn back, starting from 0.
\<close>

definition singleGesture :: "DragSample list \<Rightarrow> bool" where
  "singleGesture ss =
     (case ss of [] \<Rightarrow> False | s # rest \<Rightarrow> first s \<and> list_all (\<lambda>t. \<not> first t) rest)"

definition monotonicDrag :: "DragSample list \<Rightarrow> bool" where
  "monotonicDrag ss =
     (sorted_wrt (\<lambda>a b. a \<le> b) (0 # map mx ss) \<or> sorted_wrt (\<lambda>a b. b \<le> a) (0 # map mx ss))"

text \<open>
  The samples of one gesture with the given displacements: the first one is flagged
  \<open>first\<close>, the last one is the release of the pointer (\<open>active\<close> is false).
\<close>

definition gestureOf :: "real list \<Rightarrow> DragSample list" where
  "gestureOf xs =
     map (\<lambda>(i, x). \<lparr>first = (i = 0), active = (Suc i < length xs), mx = x\<rparr>) (enumerate 0 xs)"

text \<open>The positions committed by a stream of drag samples.\<close>

definition dragCommits :: "'a CoverflowProps \<Rightarrow> DragSample list \<Rightarrow> CoverflowState \<Rightarrow> int list" where
  "dragCommits props ss st = commits (fst (run props (map Drag ss) st))"

text \<open>The state after a stream of drag samples.\<close>

definition dragState :: "'a CoverflowProps \<Rightarrow> DragSample list \<Rightarrow> CoverflowState \<Rightarrow> CoverflowState" where
  "dragState props ss st = snd (run props (map Drag ss) st)"

text \<open>Every committed position is obtained from the position before it by \<open>f\<close>.\<close>

fun eachCommitIs :: "(int \<Rightarrow> int) \<Rightarrow> int \<Rightarrow> int list \<Rightarrow> bool" where
  "eachCommitIs f p [] = True"
| "eachCommitIs f p (q # qs) = (q = f p \<and> eachCommitIs f q qs)"

section \<open>Transform function: formulas and symmetry\<close>

lemma Math_sign_int: "Math_sign (k::int) = spec_sign k"
  by (simp add: Math_sign_def spec_sign_def)

text \<open>
  Claim C6.  For every relative offset \<open>k\<close> and every configuration, \<open>getTransform\<close> and
  \<open>getZIndex\<close> compute the formulas of the specification, with the sign written as the
  specification writes it; at offset 0 the translation, the rotation and the depth are 0
  and the scale is \<open>scale\<close>.
\<close>

theorem transform_formula:
  "translateXPercent (getTransform props k)
     = (if k = 0 then 0 else centreGap props * of_int (spec_sign k) + gap props * of_int k)
   \<and> rotateYDeg (getTransform props k) = (if k = 0 then 0 else - of_int (spec_sign k) * angle props)
   \<and> scaleX (getTransform props k) = scale props * (if k = 0 then 1 else scaleRatio props)
   \<and> scaleY (getTransform props k) = scale props * (if k = 0 then 1 else scaleRatio props)
   \<and> translateZPx (getTransform props k) = (if k = 0 then 0 else - depth props)
   \<and> perspectivePx (getTransform props k) = perspective props
   \<and> getZIndex k = 100 - \<bar>k\<bar>
   \<and> getTransform props 0
       = \<lparr>perspectivePx = perspective props, translateXPercent = 0, translateZPx = 0,
          rotateYDeg = 0, scaleX = scale props, scaleY = scale props\<rparr>"
  by (simp add: getTransform_def getZIndex_def Math_sign_int Let_def)

text \<open>
  Claim C7.  For \<open>k > 0\<close> and one configuration, the transforms at \<open>k\<close> and \<open>- k\<close> have
  opposite rotations of equal magnitude, the same depth, the same scale and the same
  stacking order.
\<close>

theorem transform_symmetry:
  assumes "0 < k"
  shows "rotateYDeg (getTransform props k) = - rotateYDeg (getTransform props (- k))
   \<and> \<bar>rotateYDeg (getTransform props k)\<bar> = \<bar>rotateYDeg (getTransform props (- k))\<bar>
   \<and> translateZPx (getTransform props k) = translateZPx (getTransform props (- k))
   \<and> scaleX (getTransform props k) = scaleX (getTransform props (- k))
   \<and> scaleY (getTransform props k) = scaleY (getTransform props (- k))
   \<and> getZIndex k = getZIndex (- k)"
  using assms by (simp add: getTransform_def getZIndex_def Math_sign_def Let_def)

theorem transform_symmetry_witness:
  "(0::int) < 2
   \<and> rotateYDeg (getTransform (defaultProps [1::nat, 2, 3]) 2) = - 60
   \<and> rotateYDeg (getTransform (defaultProps [1::nat, 2, 3]) (- 2)) = 60
   \<and> translateZPx (getTransform (defaultProps [1::nat, 2, 3]) 2)
       = translateZPx (getTransform (defaultProps [1::nat, 2, 3]) (- 2))
   \<and> getZIndex 2 = getZIndex (- 2)"
  using transform_symmetry [of 2 "defaultProps [1::nat, 2, 3]"]
  by (simp add: getTransform_def defaultProps_def Math_sign_def Let_def)

section \<open>Facts about the window\<close>

lemma visible_index: "it \<in> set (visibleItems props p) \<Longrightarrow> index it = key it - p"
  by (auto simp: visibleItems_def withIndex_def Let_def)

lemma withKeys_nth: "withKeys xs = map (\<lambda>i. \<lparr>item = xs ! i, key = int i\<rparr>) [0..<length xs]"
  unfolding withKeys_def enumerate_eq_zip
  by (rule nth_equalityI) simp_all

lemma set_Array_slice: "set (Array_slice a b xs) \<subseteq> set xs"
  unfolding Array_slice_def Let_def
  by (meson set_take_subset set_drop_subset subset_trans)

lemma visible_key: "it \<in> set (visibleItems props p) \<Longrightarrow> 0 \<le> key it \<and> key it < int (length (items props))"
proof -
  assume "it \<in> set (visibleItems props p)"
  then obtain w where w: "w \<in> set (Array_slice (max (p - sideItems props) 0) (min (p + sideItems props + 1) (int (length (items props)))) (withKeys (items props)))"
    and k: "key it = key w"
    by (auto simp: visibleItems_def withIndex_def Let_def)
  from w have "w \<in> set (withKeys (items props))" by (rule subsetD [OF set_Array_slice, rotated])
  then show ?thesis unfolding k by (auto simp: withKeys_nth)
qed

section \<open>Click dispatcher\<close>

text \<open>
  Claim C2.  A click on an item with a nonzero relative offset, with the suppression flag
  not set, calls \<open>sideItemClicked\<close> once with the item's value (the callback is optional:
  one that was not supplied is not called) and nothing else is notified; with
  \<open>clickableSide\<close> the position changes by the sign of the offset, which is one step:
  for a visible item the distance to the clicked item shrinks by exactly 1; without
  \<open>clickableSide\<close> the state is unchanged.
\<close>

theorem side_click:
  assumes "\<not> preventClick st" and "index it \<noteq> 0"
  shows "fst (handleClick props it st)
           = (if sideItemClicked props then [SideItemClicked (item it)] else [])
             @ (if clickableSide props then [SetPosition (position st + Math_sign (index it))] else [])
       \<and> snd (handleClick props it st)
           = st\<lparr>position := position st + (if clickableSide props then Math_sign (index it) else 0)\<rparr>
       \<and> \<bar>Math_sign (index it)\<bar> = 1
       \<and> (it \<in> set (visibleItems props (position st)) \<and> clickableSide props
            \<longrightarrow> \<bar>key it - position (snd (handleClick props it st))\<bar> = \<bar>index it\<bar> - 1)"
  using assms by (auto simp: handleClick_def Math_sign_def dest: visible_index)

theorem side_click_witness:
  "\<not> preventClick \<lparr>position = 2, lastX = 0, preventClick = False\<rparr>
   \<and> index \<lparr>item = 20::nat, key = 1, index = - 1\<rparr> \<noteq> 0
   \<and> \<lparr>item = 20, key = 1, index = - 1\<rparr> \<in> set (visibleItems (defaultProps [10, 20, 30, 40, 50]) 2)
   \<and> handleClick (defaultProps [10, 20, 30, 40, 50]) \<lparr>item = 20, key = 1, index = - 1\<rparr>
        \<lparr>position = 2, lastX = 0, preventClick = False\<rparr>
      = ([SideItemClicked 20, SetPosition 1], \<lparr>position = 1, lastX = 0, preventClick = False\<rparr>)"
  using side_click [where st = "\<lparr>position = 2, lastX = 0, preventClick = False\<rparr>"
      and it = "\<lparr>item = 20::nat, key = 1, index = - 1\<rparr>"
      and props = "defaultProps [10, 20, 30, 40, 50]"]
  by (simp add: handleClick_def defaultProps_def Math_sign_def visibleItems_def withIndex_def
      withKeys_def Array_slice_def Let_def)

section \<open>Drag handler: the two branches\<close>

lemma handleClick_suppressed:
  "preventClick st \<Longrightarrow> handleClick props it st = ([], st\<lparr>preventClick := False\<rparr>)"
  by (simp add: handleClick_def)

lemma dragHandler_commit:
  assumes "\<bar>mx s - (if first s then 0 else lastX st)\<bar> > dragThreshold props"
  shows "dragHandler props s st
    = ([SpringsStart (if active s then (mx s - (if first s then 0 else lastX st)) * dragSpeed props else 0) 0,
        SetPosition (clampPosition props (position st - Math_sign (mx s - (if first s then 0 else lastX st))))],
       \<lparr>position = clampPosition props (position st - Math_sign (mx s - (if first s then 0 else lastX st))),
        lastX = mx s, preventClick = True\<rparr>)"
  using assms by (cases "first s") (simp_all add: dragHandler_def Let_def)

lemma dragHandler_no_commit:
  assumes "\<not> \<bar>mx s - (if first s then 0 else lastX st)\<bar> > dragThreshold props"
  shows "dragHandler props s st
    = ([SpringsStart (if active s then (mx s - (if first s then 0 else lastX st)) * dragSpeed props else 0) 0],
       st\<lparr>lastX := (if first s then 0 else lastX st)\<rparr>)"
  using assms by (cases "first s") (simp_all add: dragHandler_def Let_def)

text \<open>
  Claim C3.  When a drag sample commits, the suppression flag is set; the next click, on
  whatever item, has no effect at all (no callback, no \<open>setPosition\<close>), leaves the
  position as it is and clears the flag; the click after it is dispatched as usual.
\<close>

theorem click_suppression:
  assumes "\<bar>mx s - (if first s then 0 else lastX st)\<bar> > dragThreshold props"
  shows "preventClick (snd (dragHandler props s st))
     \<and> handleClick props it (snd (dragHandler props s st))
         = ([], (snd (dragHandler props s st))\<lparr>preventClick := False\<rparr>)
     \<and> position (snd (handleClick props it (snd (dragHandler props s st))))
         = position (snd (dragHandler props s st))
     \<and> \<not> preventClick (snd (handleClick props it (snd (dragHandler props s st))))
     \<and> fst (run props [Drag s, Click it, Click it'] st)
         = fst (dragHandler props s st)
           @ (if index it' = 0 then (if itemClicked props then [ItemClicked (item it')] else [])
              else (if sideItemClicked props then [SideItemClicked (item it')] else [])
                   @ (if clickableSide props
                      then [SetPosition (position (snd (dragHandler props s st)) + Math_sign (index it'))]
                      else []))"
  using assms by (simp add: dragHandler_commit handleClick_def)

theorem click_suppression_witness:
  "\<bar>mx \<lparr>first = False, active = True, mx = 150\<rparr>
      - (if first \<lparr>first = False, active = True, mx = 150\<rparr> then 0
         else lastX \<lparr>position = 2, lastX = 0, preventClick = False\<rparr>)\<bar>
     > dragThreshold (defaultProps [10::nat, 20, 30, 40, 50])
   \<and> run (defaultProps [10, 20, 30, 40, 50])
        [Drag \<lparr>first = False, active = True, mx = 150\<rparr>,
         Click \<lparr>item = 20, key = 1, index = 0\<rparr>,
         Click \<lparr>item = 30, key = 2, index = 1\<rparr>]
        \<lparr>position = 2, lastX = 0, preventClick = False\<rparr>
      = ([SpringsStart 75 0, SetPosition 1, SideItemClicked 30, SetPosition 2],
         \<lparr>position = 2, lastX = 150, preventClick = False\<rparr>)"
  using click_suppression [where s = "\<lparr>first = False, active = True, mx = 150\<rparr>"
      and st = "\<lparr>position = 2, lastX = 0, preventClick = False\<rparr>"
      and props = "defaultProps [10::nat, 20, 30, 40, 50]"
      and it = "\<lparr>item = 20, key = 1, index = 0\<rparr>" and it' = "\<lparr>item = 30, key = 2, index = 1\<rparr>"]
  by (simp add: handleClick_def dragHandler_def defaultProps_def Math_sign_def clampPosition_def Let_def)

text \<open>
  Claim C9.  A sample whose rebased displacement exceeds the threshold sets the
  suppression flag and moves the baseline to the sample's displacement, also at either
  end of the list, where the clamped adjustment leaves the position as it was; the next
  click is then discarded.
\<close>

theorem boundary_commit:
  assumes "\<bar>mx s - (if first s then 0 else lastX st)\<bar> > dragThreshold props"
  shows "preventClick (snd (dragHandler props s st))
     \<and> lastX (snd (dragHandler props s st)) = mx s
     \<and> (position st = 0 \<and> 0 < mx s - (if first s then 0 else lastX st)
          \<longrightarrow> position (snd (dragHandler props s st)) = position st)
     \<and> (position st = int (length (items props)) - 1 \<and> items props \<noteq> []
          \<and> mx s - (if first s then 0 else lastX st) < 0
          \<longrightarrow> position (snd (dragHandler props s st)) = position st)
     \<and> handleClick props it (snd (dragHandler props s st))
         = ([], (snd (dragHandler props s st))\<lparr>preventClick := False\<rparr>)"
  using assms by (auto simp: dragHandler_commit handleClick_def clampPosition_def Math_sign_def)

theorem boundary_commit_witness:
  "\<bar>mx \<lparr>first = True, active = True, mx = 150\<rparr>
      - (if first \<lparr>first = True, active = True, mx = 150\<rparr> then 0
         else lastX \<lparr>position = 0, lastX = 0, preventClick = False\<rparr>)\<bar>
     > dragThreshold (defaultProps [10::nat, 20, 30])
   \<and> dragHandler (defaultProps [10::nat, 20, 30]) \<lparr>first = True, active = True, mx = 150\<rparr>
        \<lparr>position = 0, lastX = 0, preventClick = False\<rparr>
      = ([SpringsStart 75 0, SetPosition 0], \<lparr>position = 0, lastX = 150, preventClick = True\<rparr>)
   \<and> handleClick (defaultProps [10::nat, 20, 30]) \<lparr>item = 10, key = 0, index = 0\<rparr>
        \<lparr>position = 0, lastX = 150, preventClick = True\<rparr>
      = ([], \<lparr>position = 0, lastX = 150, preventClick = False\<rparr>)"
  using boundary_commit [where s = "\<lparr>first = True, active = True, mx = 150\<rparr>"
      and st = "\<lparr>position = 0, lastX = 0, preventClick = False\<rparr>"
      and props = "defaultProps [10::nat, 20, 30]" and it = "\<lparr>item = 10, key = 0, index = 0\<rparr>"]
  by (simp add: handleClick_def dragHandler_def defaultProps_def Math_sign_def clampPosition_def Let_def)

section \<open>The drag speed does not influence navigation\<close>

lemma step_dragSpeed:
  "snd (step (props\<lparr>dragSpeed := b\<rparr>) i st) = snd (step props i st)
   \<and> commits (fst (step (props\<lparr>dragSpeed := b\<rparr>) i st)) = commits (fst (step props i st))
   \<and> notifications (fst (step (props\<lparr>dragSpeed := b\<rparr>) i st)) = notifications (fst (step props i st))"
  by (cases i) (simp_all add: dragHandler_def handleClick_def clampPosition_def Let_def)

lemma commits_append: "commits (xs @ ys) = commits xs @ commits ys"
  by (induction xs rule: commits.induct) simp_all

lemma notifications_append: "notifications (xs @ ys) = notifications xs @ notifications ys"
  by (induction xs rule: notifications.induct) simp_all

lemma run_Cons:
  "run props (i # ins) st
     = (fst (step props i st) @ fst (run props ins (snd (step props i st))),
        snd (run props ins (snd (step props i st))))"
  by (simp split: prod.splits)

lemma run_dragSpeed:
  "snd (run (props\<lparr>dragSpeed := b\<rparr>) ins st) = snd (run props ins st)
   \<and> commits (fst (run (props\<lparr>dragSpeed := b\<rparr>) ins st)) = commits (fst (run props ins st))
   \<and> notifications (fst (run (props\<lparr>dragSpeed := b\<rparr>) ins st)) = notifications (fst (run props ins st))"
proof (induction ins arbitrary: st)
  case Nil
  show ?case by simp
next
  case (Cons i ins)
  show ?case
    unfolding run_Cons fst_conv snd_conv commits_append notifications_append
    using step_dragSpeed [where props = props and b = b and i = i and st = st]
      Cons.IH [of "snd (step props i st)"]
    by simp
qed

text \<open>
  Claim C8.  Two runs on one stream of drag samples whose configurations differ only in
  \<open>dragSpeed\<close> commit the same positions and end in the same state.  The drag speed only
  scales the offset handed to the springs, which is the rebased displacement times
  \<open>dragSpeed\<close> while the gesture is active and 0 otherwise; the threshold comparison does
  not read it.
\<close>

theorem dragSpeed_independence:
  "commits (fst (run (props\<lparr>dragSpeed := a\<rparr>) (map Drag ss) st))
     = commits (fst (run (props\<lparr>dragSpeed := b\<rparr>) (map Drag ss) st))
   \<and> snd (run (props\<lparr>dragSpeed := a\<rparr>) (map Drag ss) st)
     = snd (run (props\<lparr>dragSpeed := b\<rparr>) (map Drag ss) st)
   \<and> hd (fst (dragHandler props s st))
     = SpringsStart (if active s then (mx s - (if first s then 0 else lastX st)) * dragSpeed props else 0) 0
   \<and> (\<bar>mx s - (if first s then 0 else lastX st)\<bar> > dragThreshold (props\<lparr>dragSpeed := a\<rparr>))
     = (\<bar>mx s - (if first s then 0 else lastX st)\<bar> > dragThreshold props)"
  using run_dragSpeed [where props = props and b = a and ins = "map Drag ss" and st = st]
    run_dragSpeed [where props = props and b = b and ins = "map Drag ss" and st = st]
  by (simp add: dragHandler_def Let_def)

section \<open>The position stays within the list\<close>

lemma clampPosition_inBounds: "items props \<noteq> [] \<Longrightarrow> inBounds props (clampPosition props n)"
  by (cases "items props") (simp_all add: inBounds_def clampPosition_def)

lemma dragHandler_inBounds:
  assumes "items props \<noteq> []" and "inBounds props (position st)"
  shows "inBounds props (position (snd (dragHandler props s st)))"
proof (cases "\<bar>mx s - (if first s then 0 else lastX st)\<bar> > dragThreshold props")
  case True
  then show ?thesis by (simp add: dragHandler_commit clampPosition_inBounds assms(1))
next
  case False
  then show ?thesis by (simp add: dragHandler_no_commit assms(2))
qed

lemma handleClick_inBounds:
  assumes "inBounds props (position st)" and "it \<in> set (visibleItems props (position st))"
  shows "inBounds props (position (snd (handleClick props it st)))"
  using assms visible_index [OF assms(2)] visible_key [OF assms(2)]
  by (auto simp: handleClick_def inBounds_def Math_sign_def)

lemma run_inBounds:
  assumes "items props \<noteq> []"
  shows "inBounds props (position st) \<Longrightarrow> clicksVisible props ins st
    \<Longrightarrow> inBounds props (position (snd (run props ins st)))"
proof (induction ins arbitrary: st)
  case Nil
  then show ?case by simp
next
  case (Cons i ins)
  show ?case
  proof (cases i)
    case (Drag s)
    with Cons.prems have "clicksVisible props ins (snd (dragHandler props s st))" by simp
    moreover have "inBounds props (position (snd (dragHandler props s st)))"
      using assms Cons.prems(1) by (rule dragHandler_inBounds)
    ultimately show ?thesis using Cons.IH Drag unfolding run_Cons by simp
  next
    case (Click it)
    with Cons.prems have v: "it \<in> set (visibleItems props (position st))"
      and c: "clicksVisible props ins (snd (handleClick props it st))" by simp_all
    have "inBounds props (position (snd (handleClick props it st)))"
      using Cons.prems(1) v by (rule handleClick_inBounds)
    with c show ?thesis using Cons.IH Click unfolding run_Cons by simp
  qed
qed

text \<open>
  Claim C4.  For a list of length \<open>N \<ge> 1\<close>, \<open>clampPosition n\<close> is \<open>max 0 (min n (N - 1))\<close> and
  lies in \<open>[0, N - 1]\<close>; the initial position and the position after every stream of drag
  samples and clicks on visible items lie in \<open>[0, N - 1]\<close>.
\<close>

theorem position_invariant:
  assumes "items props \<noteq> []" and "clicksVisible props ins (initialState props)"
  shows "clampPosition props n = max 0 (min n (int (length (items props)) - 1))
     \<and> 0 \<le> clampPosition props n \<and> clampPosition props n \<le> int (length (items props)) - 1
     \<and> 0 \<le> position (initialState props)
     \<and> position (initialState props) \<le> int (length (items props)) - 1
     \<and> 0 \<le> position (snd (run props ins (initialState props)))
     \<and> position (snd (run props ins (initialState props))) \<le> int (length (items props)) - 1"
proof -
  have i: "inBounds props (position (initialState props))"
    using assms(1) by (simp add: initialState_def clampPosition_inBounds)
  from run_inBounds [OF assms(1) i assms(2)] i clampPosition_inBounds [OF assms(1), of n]
  show ?thesis by (simp add: inBounds_def clampPosition_def)
qed

theorem position_invariant_witness:
  "items (defaultProps [10::nat, 20, 30]) \<noteq> []
   \<and> clicksVisible ((defaultProps [10::nat, 20, 30])\<lparr>startPosition := 7\<rparr>)
        [Click \<lparr>item = 20, key = 1, index = - 1\<rparr>, Drag \<lparr>first = True, active = True, mx = - 150\<rparr>,
         Click \<lparr>item = 20, key = 1, index = - 1\<rparr>, Click \<lparr>item = 10, key = 0, index = - 2\<rparr>]
        (initialState ((defaultProps [10::nat, 20, 30])\<lparr>startPosition := 7\<rparr>))
   \<and> position (initialState ((defaultProps [10::nat, 20, 30])\<lparr>startPosition := 7\<rparr>)) = 2
   \<and> position (snd (run ((defaultProps [10::nat, 20, 30])\<lparr>startPosition := 7\<rparr>)
        [Click \<lparr>item = 20, key = 1, index = - 1\<rparr>, Drag \<lparr>first = True, active = True, mx = - 150\<rparr>,
         Click \<lparr>item = 20, key = 1, index = - 1\<rparr>, Click \<lparr>item = 10, key = 0, index = - 2\<rparr>]
        (initialState ((defaultProps [10::nat, 20, 30])\<lparr>startPosition := 7\<rparr>)))) = 1"
  using position_invariant [where props = "(defaultProps [10::nat, 20, 30])\<lparr>startPosition := 7\<rparr>"
        and ins = "[Click \<lparr>item = 20, key = 1, index = - 1\<rparr>, Drag \<lparr>first = True, active = True, mx = - 150\<rparr>,
         Click \<lparr>item = 20, key = 1, index = - 1\<rparr>, Click \<lparr>item = 10, key = 0, index = - 2\<rparr>]" and n = 0]
  by (simp add: handleClick_def dragHandler_def defaultProps_def Math_sign_def clampPosition_def
      initialState_def visibleItems_def withIndex_def withKeys_def Array_slice_def Let_def)

section \<open>The window is a contiguous range of the list\<close>

lemma slice_window:
  assumes "0 \<le> a" and "0 \<le> b"
  shows "Array_slice a b (map f [0..<n]) = map f [nat a..<nat (min b (int n))]"
proof -
  have "take (nat (min b (int n) - min a (int n))) (drop (nat (min a (int n))) (map f [0..<n]))
      = map f [nat a..<nat (min b (int n))]"
  proof (cases "a \<le> int n")
    case True
    with assms have "nat a + nat (min b (int n) - a) = nat (min b (int n)) \<or> min b (int n) \<le> a"
      by linarith
    with True assms show ?thesis
      by (auto simp: drop_map take_map min_def)
  next
    case False
    with assms show ?thesis by (auto simp: min_def)
  qed
  with assms show ?thesis by (simp add: Array_slice_def Let_def)
qed

lemma visibleItems_range:
  assumes "0 \<le> p" and "0 \<le> sideItems props"
  shows "visibleItems props p
      = map (\<lambda>i. \<lparr>item = items props ! i, key = int i, index = int i - p\<rparr>)
          [nat (max 0 (p - sideItems props))..<nat (min (int (length (items props))) (p + sideItems props + 1))]"
proof -
  have "0 \<le> p + sideItems props + 1" using assms by simp
  then show ?thesis
    by (simp add: visibleItems_def Let_def withKeys_nth slice_window withIndex_def
        min.commute max.commute o_def)
qed

lemma count_centre:
  assumes "lo \<le> c" and "c < hi"
  shows "filter (\<lambda>i. int i - int c = 0) [lo..<hi] = [c]"
proof -
  have "[lo..<hi] = [lo..<c] @ c # [Suc c..<hi]"
    using assms by (metis le_Suc_ex less_imp_le_nat upt_add_eq_append upt_conv_Cons)
  then show ?thesis by simp
qed

text \<open>
  Claim C5.  For a position \<open>p \<ge> 0\<close> and \<open>sideItems = s \<ge> 0\<close> the visible items are the
  items with original indices from \<open>max 0 (p - s)\<close> up to, not including,
  \<open>min N (p + s + 1)\<close>, in list order, each with its original index as key and with
  relative offset \<open>key - p\<close>; the keys are consecutive, so the window does not wrap; when
  \<open>p < N\<close> exactly one visible item has offset 0, the item at \<open>p\<close>.
\<close>

theorem window_contents:
  assumes "0 \<le> p" and "0 \<le> sideItems props"
  shows "visibleItems props p
      = map (\<lambda>i. \<lparr>item = items props ! i, key = int i, index = int i - p\<rparr>)
          [nat (max 0 (p - sideItems props))..<nat (min (int (length (items props))) (p + sideItems props + 1))]
    \<and> map key (visibleItems props p)
      = map int [nat (max 0 (p - sideItems props))..<nat (min (int (length (items props))) (p + sideItems props + 1))]
    \<and> (p < int (length (items props))
        \<longrightarrow> filter (\<lambda>it. index it = 0) (visibleItems props p)
            = [\<lparr>item = items props ! nat p, key = p, index = 0\<rparr>])"
proof -
  let ?lo = "nat (max 0 (p - sideItems props))"
  let ?hi = "nat (min (int (length (items props))) (p + sideItems props + 1))"
  note w = visibleItems_range [OF assms]
  have c: "filter (\<lambda>it. index it = 0) (visibleItems props p)
            = [\<lparr>item = items props ! nat p, key = p, index = 0\<rparr>]" if "p < int (length (items props))"
  proof -
    have "?lo \<le> nat p" and "nat p < ?hi" using assms that by auto
    from count_centre [OF this] assms(1) show ?thesis
      unfolding w by (simp add: filter_map o_def)
  qed
  show ?thesis using w c by (simp add: o_def)
qed

theorem window_contents_witness:
  "(0::int) \<le> 5 \<and> 0 \<le> sideItems (defaultProps [10::nat, 11, 12, 13, 14, 15, 16, 17, 18, 19])
   \<and> map key (visibleItems (defaultProps [10::nat, 11, 12, 13, 14, 15, 16, 17, 18, 19]) 5)
       = [2, 3, 4, 5, 6, 7, 8]
   \<and> map index (visibleItems (defaultProps [10::nat, 11, 12, 13, 14, 15, 16, 17, 18, 19]) 5)
       = [- 3, - 2, - 1, 0, 1, 2, 3]
   \<and> map item (visibleItems (defaultProps [10::nat, 11, 12, 13, 14, 15, 16, 17, 18, 19]) 5)
       = [12, 13, 14, 15, 16, 17, 18]"
  using window_contents [where p = 5 and props = "defaultProps [10::nat, 11, 12, 13, 14, 15, 16, 17, 18, 19]"]
  by (simp add: defaultProps_def upt_rec_numeral)

section \<open>The empty list\<close>

lemma visibleItems_empty: "items props = [] \<Longrightarrow> visibleItems props p = []"
  by (simp add: visibleItems_def withKeys_def withIndex_def Array_slice_def Let_def)

lemma clampPosition_empty: "items props = [] \<Longrightarrow> clampPosition props n = 0"
  by (simp add: clampPosition_def)

lemma dragHandler_empty:
  assumes "items props = []" and "position st = 0"
  shows "notifications (fst (dragHandler props s st)) = []
     \<and> position (snd (dragHandler props s st)) = 0"
proof (cases "\<bar>mx s - (if first s then 0 else lastX st)\<bar> > dragThreshold props")
  case True
  then show ?thesis by (simp add: dragHandler_commit clampPosition_empty assms(1))
next
  case False
  then show ?thesis by (simp add: dragHandler_no_commit assms(2))
qed

lemma run_empty:
  assumes "items props = []"
  shows "position st = 0 \<Longrightarrow> clicksVisible props ins st
    \<Longrightarrow> notifications (fst (run props ins st)) = [] \<and> position (snd (run props ins st)) = 0"
proof (induction ins arbitrary: st)
  case Nil
  then show ?case by simp
next
  case (Cons i ins)
  show ?case
  proof (cases i)
    case (Drag s)
    note d = dragHandler_empty [OF assms Cons.prems(1), of s]
    from Cons.prems(2) Drag have "clicksVisible props ins (snd (dragHandler props s st))" by simp
    with d Cons.IH [of "snd (dragHandler props s st)"] Drag show ?thesis
      unfolding run_Cons by (simp add: notifications_append)
  next
    case (Click it)
    with Cons.prems(2) have "it \<in> set (visibleItems props (position st))" by simp
    then show ?thesis by (simp add: visibleItems_empty assms)
  qed
qed

text \<open>
  Claim C10.  With an empty item list the initial position is
  \<open>max 0 (min startPosition (- 1)) = 0\<close>, \<open>clampPosition\<close> is constantly 0, the window is
  empty at every position, so no descriptor is produced and no item can be clicked; every
  stream of events the component can receive then causes no notification and leaves the
  position at 0.  None of the operations involved can throw, and the model has no error
  result.
\<close>

theorem empty_list:
  assumes "items props = []" and "clicksVisible props ins (initialState props)"
  shows "position (initialState props) = max 0 (min (startPosition props) (- 1))
     \<and> position (initialState props) = 0
     \<and> clampPosition props n = 0
     \<and> visibleItems props p = []
     \<and> map (\<lambda>it. (key it, getTransform props (index it), getZIndex (index it))) (visibleItems props p) = []
     \<and> notifications (fst (run props ins (initialState props))) = []
     \<and> position (snd (run props ins (initialState props))) = 0"
proof -
  have z: "position (initialState props) = 0"
    by (simp add: initialState_def clampPosition_empty assms(1))
  from run_empty [OF assms(1) z assms(2)] z show ?thesis
    by (simp add: visibleItems_empty clampPosition_empty assms(1))
qed

theorem empty_list_witness:
  "items ((defaultProps ([]::nat list))\<lparr>startPosition := 4\<rparr>) = []
   \<and> clicksVisible ((defaultProps ([]::nat list))\<lparr>startPosition := 4\<rparr>)
        [Drag \<lparr>first = True, active = True, mx = 150\<rparr>, Drag \<lparr>first = False, active = False, mx = 20\<rparr>]
        (initialState ((defaultProps ([]::nat list))\<lparr>startPosition := 4\<rparr>))
   \<and> initialState ((defaultProps ([]::nat list))\<lparr>startPosition := 4\<rparr>)
       = \<lparr>position = 0, lastX = 0, preventClick = False\<rparr>
   \<and> run ((defaultProps ([]::nat list))\<lparr>startPosition := 4\<rparr>)
        [Drag \<lparr>first = True, active = True, mx = 150\<rparr>, Drag \<lparr>first = False, active = False, mx = 20\<rparr>]
        (initialState ((defaultProps ([]::nat list))\<lparr>startPosition := 4\<rparr>))
       = ([SpringsStart 75 0, SetPosition 0, SpringsStart 0 0, SetPosition 0],
          \<lparr>position = 0, lastX = 20, preventClick = True\<rparr>)"
  using empty_list [where props = "(defaultProps ([]::nat list))\<lparr>startPosition := 4\<rparr>"
      and ins = "[Drag \<lparr>first = True, active = True, mx = 150\<rparr>, Drag \<lparr>first = False, active = False, mx = 20\<rparr>]"
      and n = 0 and p = 0]
  by (simp add: dragHandler_def defaultProps_def Math_sign_def clampPosition_def initialState_def Let_def)

section \<open>The earlier click handler jumps to the clicked item\<close>

lemma handleClick_coverflow_tsx_jumps:
  "it \<in> set (visibleItems props p) \<Longrightarrow> snd (handleClick_coverflow_tsx props it p) = key it"
  by (simp add: handleClick_coverflow_tsx_def visible_index)

section \<open>Commits of a monotonic drag\<close>

lemma dragCommits_Nil: "dragCommits props [] st = []"
  by (simp add: dragCommits_def)

lemma dragState_Nil: "dragState props [] st = st"
  by (simp add: dragState_def)

lemma dragCommits_Cons:
  "dragCommits props (s # ss) st
     = commits (fst (dragHandler props s st)) @ dragCommits props ss (snd (dragHandler props s st))"
  unfolding dragCommits_def list.map run_Cons fst_conv commits_append by simp

lemma dragState_Cons:
  "dragState props (s # ss) st = dragState props ss (snd (dragHandler props s st))"
  unfolding dragState_def list.map run_Cons snd_conv by simp

lemma dragHandler_first:
  "first s \<Longrightarrow> dragHandler props s st = dragHandler props (s\<lparr>first := False\<rparr>) (st\<lparr>lastX := 0\<rparr>)"
  by (simp add: dragHandler_def Let_def)

lemma drag_tail:
  fixes \<sigma> :: real
  assumes T: "0 < dragThreshold props" and \<sigma>: "\<sigma> = 1 \<or> \<sigma> = - 1"
  shows "list_all (\<lambda>t. \<not> first t) ss
    \<Longrightarrow> sorted_wrt (\<lambda>a b. \<sigma> * a \<le> \<sigma> * b) (lastX st # map mx ss)
    \<Longrightarrow> (dragCommits props ss st = [] \<and> lastX (dragState props ss st) = lastX st
           \<and> (\<forall>s \<in> set ss. \<bar>mx s - lastX st\<bar> \<le> dragThreshold props)
         \<or> dragCommits props ss st \<noteq> []
           \<and> \<sigma> * lastX st + real (length (dragCommits props ss st)) * dragThreshold props
               < \<sigma> * lastX (dragState props ss st))
       \<and> \<sigma> * lastX (dragState props ss st) \<le> \<sigma> * last (lastX st # map mx ss)
       \<and> eachCommitIs (\<lambda>p. clampPosition props (p - Math_sign \<sigma>)) (position st)
            (dragCommits props ss st)
       \<and> position (dragState props ss st) = last (position st # dragCommits props ss st)"
proof (induction ss arbitrary: st)
  case Nil
  show ?case by (simp add: dragCommits_Nil dragState_Nil)
next
  case (Cons s ss)
  from Cons.prems have nf: "\<not> first s" and rest: "list_all (\<lambda>t. \<not> first t) ss" by simp_all
  from Cons.prems(2) have step: "\<sigma> * lastX st \<le> \<sigma> * mx s"
    and srt1: "sorted_wrt (\<lambda>a b. \<sigma> * a \<le> \<sigma> * b) (mx s # map mx ss)"
    and srt0: "sorted_wrt (\<lambda>a b. \<sigma> * a \<le> \<sigma> * b) (lastX st # map mx ss)"
    by simp_all
  show ?case
  proof (cases "\<bar>mx s - lastX st\<bar> > dragThreshold props")
    case True
    define p1 where "p1 = clampPosition props (position st - Math_sign (mx s - lastX st))"
    define st1 where "st1 = \<lparr>position = p1, lastX = mx s, preventClick = True\<rparr>"
    have h: "dragHandler props s st
        = ([SpringsStart (if active s then (mx s - lastX st) * dragSpeed props else 0) 0, SetPosition p1], st1)"
      using dragHandler_commit [of props s st] True nf by (simp add: p1_def st1_def)
    have sg: "Math_sign (mx s - lastX st) = Math_sign \<sigma>"
      using True T step \<sigma> by (auto simp: Math_sign_def)
    have big: "\<sigma> * lastX st + dragThreshold props < \<sigma> * mx s"
      using True T step \<sigma> by auto
    have c: "dragCommits props (s # ss) st = p1 # dragCommits props ss st1"
      and f: "dragState props (s # ss) st = dragState props ss st1"
      by (simp_all add: dragCommits_Cons dragState_Cons h)
    have l1: "lastX st1 = mx s" and p: "position st1 = p1" by (simp_all add: st1_def)
    note ih = Cons.IH [of st1, unfolded l1 p, OF rest srt1]
    have p1f: "p1 = clampPosition props (position st - Math_sign \<sigma>)"
      by (simp add: p1_def sg)
    from ih big p1f show ?thesis
      unfolding c f by (auto simp: algebra_simps)
  next
    case False
    have h: "dragHandler props s st
        = ([SpringsStart (if active s then (mx s - lastX st) * dragSpeed props else 0) 0], st)"
      using dragHandler_no_commit [of props s st] False nf by simp
    have c: "dragCommits props (s # ss) st = dragCommits props ss st"
      and f: "dragState props (s # ss) st = dragState props ss st"
      by (simp_all add: dragCommits_Cons dragState_Cons h)
    note ih = Cons.IH [of st, OF rest srt0]
    from ih False step show ?thesis
      unfolding c f by auto
  qed
qed

lemma drag_gesture:
  fixes \<sigma> :: real
  assumes T: "0 < dragThreshold props" and \<sigma>: "\<sigma> = 1 \<or> \<sigma> = - 1"
    and g: "singleGesture ss"
    and m: "sorted_wrt (\<lambda>a b. \<sigma> * a \<le> \<sigma> * b) (0 # map mx ss)"
  shows "(dragCommits props ss st = [] \<and> \<bar>mx (last ss)\<bar> \<le> dragThreshold props
         \<or> dragCommits props ss st \<noteq> []
           \<and> real (length (dragCommits props ss st)) * dragThreshold props < \<sigma> * mx (last ss))
       \<and> 0 \<le> \<sigma> * mx (last ss)
       \<and> eachCommitIs (\<lambda>p. clampPosition props (p - Math_sign \<sigma>)) (position st)
            (dragCommits props ss st)
       \<and> position (dragState props ss st) = last (position st # dragCommits props ss st)"
proof -
  from g obtain s rest where ss: "ss = s # rest" and fs: "first s"
    and nf: "list_all (\<lambda>t. \<not> first t) rest"
    by (auto simp: singleGesture_def split: list.splits)
  define ss' where "ss' = s\<lparr>first := False\<rparr> # rest"
  define st0 where "st0 = st\<lparr>lastX := 0\<rparr>"
  have c: "dragCommits props ss st = dragCommits props ss' st0"
    and f: "dragState props ss st = dragState props ss' st0"
    unfolding ss ss'_def st0_def dragCommits_Cons dragState_Cons dragHandler_first [OF fs]
    by simp_all
  have mxs: "map mx ss' = map mx ss" and l: "mx (last ss') = mx (last ss)"
    and ne: "last ss' \<in> set ss'"
    by (simp_all add: ss ss'_def)
  have lm: "last (lastX st0 # map mx ss') = mx (last ss')"
    by (simp add: ss'_def last_map)
  have nf': "list_all (\<lambda>t. \<not> first t) ss'" using nf by (simp add: ss'_def)
  have m': "sorted_wrt (\<lambda>a b. \<sigma> * a \<le> \<sigma> * b) (lastX st0 # map mx ss')"
    using m by (simp add: mxs st0_def)
  have pos: "0 \<le> \<sigma> * mx (last ss')"
    using m ne unfolding mxs [symmetric] by simp
  note t = drag_tail [OF T \<sigma> nf' m', unfolded lm]
  have l0: "lastX st0 = 0" and p0: "position st0 = position st" by (simp_all add: st0_def)
  from t ne pos show ?thesis
    unfolding c f l [symmetric] l0 p0 by auto
qed

text \<open>
  Claim C1, as amended.  The handler commits when the rebased displacement is strictly
  beyond the threshold and then takes the displacement of that sample as the new
  baseline, so the number of commits of a drag depends on how the drag is sampled, not
  only on the displacement \<open>d\<close> it reaches.  For a threshold \<open>> 0\<close> and a single monotonic
  drag whose last sample has displacement \<open>d\<close>: the number \<open>c\<close> of commits is 0 or satisfies
  \<open>c * dragThreshold < \<bar>d\<bar>\<close>, hence \<open>c \<le> \<lfloor>\<bar>d\<bar> / dragThreshold\<rfloor>\<close>; there is at least one
  commit when \<open>\<bar>d\<bar> > dragThreshold\<close>; every commit sets the position to
  \<open>clampPosition (position - sign d)\<close>; and the final position is the last committed one.
\<close>

theorem drag_commit_bounds:
  assumes "0 < dragThreshold props" and "singleGesture ss" and "monotonicDrag ss"
  shows "(dragCommits props ss st = []
          \<or> real (length (dragCommits props ss st)) * dragThreshold props < \<bar>mx (last ss)\<bar>)
     \<and> int (length (dragCommits props ss st)) \<le> \<lfloor>\<bar>mx (last ss)\<bar> / dragThreshold props\<rfloor>
     \<and> (dragThreshold props < \<bar>mx (last ss)\<bar> \<longrightarrow> dragCommits props ss st \<noteq> [])
     \<and> eachCommitIs (\<lambda>p. clampPosition props (p - Math_sign (mx (last ss)))) (position st)
          (dragCommits props ss st)
     \<and> position (snd (run props (map Drag ss) st)) = last (position st # dragCommits props ss st)"
proof -
  from assms(3) consider
    (up) "sorted_wrt (\<lambda>a b. 1 * a \<le> 1 * b) (0 # map mx ss)"
    | (down) "sorted_wrt (\<lambda>a b. - 1 * a \<le> - 1 * (b::real)) (0 # map mx ss)"
    by (auto simp: monotonicDrag_def)
  then have main: "(dragCommits props ss st = [] \<and> \<bar>mx (last ss)\<bar> \<le> dragThreshold props
         \<or> dragCommits props ss st \<noteq> []
           \<and> real (length (dragCommits props ss st)) * dragThreshold props < \<bar>mx (last ss)\<bar>)
       \<and> eachCommitIs (\<lambda>p. clampPosition props (p - Math_sign (mx (last ss)))) (position st)
            (dragCommits props ss st)
       \<and> position (dragState props ss st) = last (position st # dragCommits props ss st)"
  proof cases
    case up
    from drag_gesture [OF assms(1) _ assms(2) up, of st]
    have r: "(dragCommits props ss st = [] \<and> \<bar>mx (last ss)\<bar> \<le> dragThreshold props
         \<or> dragCommits props ss st \<noteq> []
           \<and> real (length (dragCommits props ss st)) * dragThreshold props < mx (last ss))
       \<and> eachCommitIs (\<lambda>p. clampPosition props (p - 1)) (position st) (dragCommits props ss st)
       \<and> position (dragState props ss st) = last (position st # dragCommits props ss st)"
      by (auto simp: Math_sign_def)
    show ?thesis
    proof (cases "dragCommits props ss st = []")
      case True
      with r show ?thesis by simp
    next
      case False
      have "0 \<le> real (length (dragCommits props ss st)) * dragThreshold props"
        using assms(1) by simp
      with r False have "0 < mx (last ss)" by linarith
      with r False show ?thesis by (simp add: Math_sign_def)
    qed
  next
    case down
    from drag_gesture [OF assms(1) _ assms(2) down, of st]
    have r: "(dragCommits props ss st = [] \<and> \<bar>mx (last ss)\<bar> \<le> dragThreshold props
         \<or> dragCommits props ss st \<noteq> []
           \<and> real (length (dragCommits props ss st)) * dragThreshold props < - mx (last ss))
       \<and> eachCommitIs (\<lambda>p. clampPosition props (p + 1)) (position st) (dragCommits props ss st)
       \<and> position (dragState props ss st) = last (position st # dragCommits props ss st)"
      by (auto simp: Math_sign_def)
    show ?thesis
    proof (cases "dragCommits props ss st = []")
      case True
      with r show ?thesis by simp
    next
      case False
      have "0 \<le> real (length (dragCommits props ss st)) * dragThreshold props"
        using assms(1) by simp
      with r False have "mx (last ss) < 0" by linarith
      with r False show ?thesis by (simp add: Math_sign_def)
    qed
  qed
  have fl: "int (length (dragCommits props ss st)) \<le> \<lfloor>\<bar>mx (last ss)\<bar> / dragThreshold props\<rfloor>"
  proof (cases "dragCommits props ss st = []")
    case True
    with assms(1) show ?thesis by simp
  next
    case False
    with main have "real (length (dragCommits props ss st)) * dragThreshold props < \<bar>mx (last ss)\<bar>"
      by simp
    with assms(1) have "real (length (dragCommits props ss st)) \<le> \<bar>mx (last ss)\<bar> / dragThreshold props"
      by (simp add: pos_le_divide_eq)
    then show ?thesis by (simp add: le_floor_iff)
  qed
  from main fl show ?thesis by (auto simp: dragState_def)
qed

text \<open>
  A drag to 250 with the threshold 100, sampled at 0, 60, 120, 180 and 250, commits twice,
  from position 5 to 4 and to 3.
\<close>

theorem drag_commit_bounds_witness:
  "0 < dragThreshold ((defaultProps [10::nat, 11, 12, 13, 14, 15, 16, 17, 18, 19])\<lparr>startPosition := 5\<rparr>)
   \<and> singleGesture (gestureOf [0, 60, 120, 180, 250])
   \<and> monotonicDrag (gestureOf [0, 60, 120, 180, 250])
   \<and> mx (last (gestureOf [0, 60, 120, 180, 250])) = 250
   \<and> dragCommits ((defaultProps [10::nat, 11, 12, 13, 14, 15, 16, 17, 18, 19])\<lparr>startPosition := 5\<rparr>)
        (gestureOf [0, 60, 120, 180, 250])
        (initialState ((defaultProps [10::nat, 11, 12, 13, 14, 15, 16, 17, 18, 19])\<lparr>startPosition := 5\<rparr>))
      = [4, 3]
   \<and> position (snd (run ((defaultProps [10::nat, 11, 12, 13, 14, 15, 16, 17, 18, 19])\<lparr>startPosition := 5\<rparr>)
        (map Drag (gestureOf [0, 60, 120, 180, 250]))
        (initialState ((defaultProps [10::nat, 11, 12, 13, 14, 15, 16, 17, 18, 19])\<lparr>startPosition := 5\<rparr>))))
      = 3"
  using drag_commit_bounds [where ss = "gestureOf [0, 60, 120, 180, 250]"
      and props = "(defaultProps [10::nat, 11, 12, 13, 14, 15, 16, 17, 18, 19])\<lparr>startPosition := 5\<rparr>"
      and st = "initialState ((defaultProps [10::nat, 11, 12, 13, 14, 15, 16, 17, 18, 19])\<lparr>startPosition := 5\<rparr>)"]
  by (simp add: gestureOf_def singleGesture_def monotonicDrag_def dragCommits_def dragHandler_def
      defaultProps_def initialState_def clampPosition_def Math_sign_def Let_def)

text \<open>
  The same drag sampled every 50 pixels commits once: at 150 the baseline becomes 150, and
  250 is then not strictly more than 100 beyond it.  The claimed number of commits is
  \<open>\<lfloor>250 / 100\<rfloor> = 2\<close>.
\<close>

theorem drag_commit_count_counterexample:
  "items ((defaultProps [10::nat, 11, 12, 13, 14, 15, 16, 17, 18, 19])\<lparr>startPosition := 5\<rparr>) \<noteq> []
   \<and> 0 < dragThreshold ((defaultProps [10::nat, 11, 12, 13, 14, 15, 16, 17, 18, 19])\<lparr>startPosition := 5\<rparr>)
   \<and> singleGesture (gestureOf [0, 50, 100, 150, 200, 250])
   \<and> monotonicDrag (gestureOf [0, 50, 100, 150, 200, 250])
   \<and> mx (last (gestureOf [0, 50, 100, 150, 200, 250])) = 250
   \<and> dragCommits ((defaultProps [10::nat, 11, 12, 13, 14, 15, 16, 17, 18, 19])\<lparr>startPosition := 5\<rparr>)
        (gestureOf [0, 50, 100, 150, 200, 250])
        (initialState ((defaultProps [10::nat, 11, 12, 13, 14, 15, 16, 17, 18, 19])\<lparr>startPosition := 5\<rparr>))
      = [4]
   \<and> int (length (dragCommits ((defaultProps [10::nat, 11, 12, 13, 14, 15, 16, 17, 18, 19])\<lparr>startPosition := 5\<rparr>)
        (gestureOf [0, 50, 100, 150, 200, 250])
        (initialState ((defaultProps [10::nat, 11, 12, 13, 14, 15, 16, 17, 18, 19])\<lparr>startPosition := 5\<rparr>))))
      \<noteq> \<lfloor>\<bar>mx (last (gestureOf [0, 50, 100, 150, 200, 250]))\<bar>
          / dragThreshold ((defaultProps [10::nat, 11, 12, 13, 14, 15, 16, 17, 18, 19])\<lparr>startPosition := 5\<rparr>)\<rfloor>"
proof -
  have "\<lfloor>(250::real) / 100\<rfloor> = 2" by (simp add: floor_eq_iff)
  then show ?thesis
  by (simp add: gestureOf_def singleGesture_def monotonicDrag_def dragCommits_def dragHandler_def
      defaultProps_def initialState_def clampPosition_def Math_sign_def Let_def)
qed

end
